theory Spec2Isabelle
  imports Main "HOL-Library.Word"
begin

unbundle bit_operations_syntax

section \<open>Data model of \<^verbatim>\<open>internal/config/parsing.go\<close>\<close>

text \<open>
  A Go \<^verbatim>\<open>string\<close> is a sequence of bytes; it is modelled as \<^typ>\<open>string\<close>, whose
  characters are the bytes. \<^verbatim>\<open>uint16\<close> and \<^verbatim>\<open>uint32\<close> are words, a
  \<^verbatim>\<open>rune\<close> (\<^verbatim>\<open>int32\<close>) is a 32-bit word that is only ever compared for equality.
\<close>

type_synonym byte = "8 word"
type_synonym rune = "32 word"
type_synonym uint16 = "16 word"
type_synonym uint32 = "32 word"

record LocalDNSRecord =
  Name :: string
  Type :: string
  TTL :: uint32
  Target :: string

record Nameserver =
  IPv4 :: string
  IPv6 :: string
  Port :: uint16

record UpstreamNameservers =
  Primary :: Nameserver
  Secondary :: Nameserver
  TimeoutMs :: uint16

record Configuration =
  LocalRecords :: "LocalDNSRecord list"
  UpstreamNameservers :: UpstreamNameservers

definition PermittedRecordTypes :: "string list" where
  "PermittedRecordTypes = [''A'', ''AAAA'', ''CNAME'']"

text \<open>
  The errors \<^verbatim>\<open>LoadConfig\<close> and \<^verbatim>\<open>ValidateNameserver\<close> return. The source builds
  them with \<^verbatim>\<open>errors.New(fmt.Sprintf(...))\<close>; each constructor stands for one format
  string and carries the value that is formatted into it:
  \<^item> \<open>OpenError\<close>, \<open>DecodeError\<close>: the error of \<^verbatim>\<open>os.Open\<close> or of
    \<^verbatim>\<open>decoder.Decode\<close>, returned as it is;
  \<^item> \<open>NameInvalid k\<close>: "Name for LocalRecord at index k is invalid, should follow pattern
    domain.name.:";
  \<^item> \<open>TypeInvalid k\<close>: "Type for LocalRecord at index k is invalid:";
  \<^item> \<open>TTLInvalid k\<close>: "TTL for LocalRecord at index k is invalid";
  \<^item> \<open>TargetInvalid k\<close>: "Target for LocalRecord at index k is invalid (check type and
    target format)";
  \<^item> \<open>NameserverMissing\<close>: "IPv4 OR IPv6 of upstream nameserver must be provided";
  \<^item> \<open>NameserverIPv4Invalid a\<close>: "IPv4 of upstream nameserver is invalid: a";
  \<^item> \<open>NameserverIPv6Invalid a\<close>: "IPv6 of upstream nameserver is invalid a".
\<close>

datatype error =
    OpenError string
  | DecodeError string
  | NameInvalid nat
  | TypeInvalid nat
  | TTLInvalid nat
  | TargetInvalid nat
  | NameserverMissing
  | NameserverIPv4Invalid string
  | NameserverIPv6Invalid string

section \<open>The conversion \<^verbatim>\<open>[]rune(s)\<close>\<close>

text \<open>
  \<^verbatim>\<open>[]rune(s)\<close> decodes the bytes of \<open>s\<close> as UTF-8, one rune per encoded code point
  and one \<^verbatim>\<open>RuneError\<close> (U+FFFD) per byte that does not start a valid encoding. The
  decoder below follows \<^verbatim>\<open>utf8.DecodeRuneInString\<close> of the Go library: the table
  \<^verbatim>\<open>first\<close> gives, for the leading byte, the size of the encoding and the range
  accepted for the second byte.
\<close>

definition RuneError :: rune where
  "RuneError = 0xFFFD"

definition byte_of :: "char \<Rightarrow> byte" where
  "byte_of c = of_char c"

text \<open>\<^verbatim>\<open>first[s0]\<close>: \<open>None\<close> for an invalid leading byte (\<^verbatim>\<open>xx\<close>), \<open>Some (1, _, _)\<close>
  for ASCII (\<^verbatim>\<open>as\<close>), otherwise the size and the accept range \<open>lo\<close>, \<open>hi\<close>.\<close>

definition first :: "byte \<Rightarrow> (nat \<times> byte \<times> byte) option" where
  "first s0 =
     (if s0 < 0x80 then Some (1, 0x80, 0xBF)
      else if s0 < 0xC2 then None
      else if s0 < 0xE0 then Some (2, 0x80, 0xBF)
      else if s0 = 0xE0 then Some (3, 0xA0, 0xBF)
      else if s0 < 0xED then Some (3, 0x80, 0xBF)
      else if s0 = 0xED then Some (3, 0x80, 0x9F)
      else if s0 < 0xF0 then Some (3, 0x80, 0xBF)
      else if s0 = 0xF0 then Some (4, 0x90, 0xBF)
      else if s0 < 0xF4 then Some (4, 0x80, 0xBF)
      else if s0 = 0xF4 then Some (4, 0x80, 0x8F)
      else None)"

definition rune_of :: "byte \<Rightarrow> rune" where
  "rune_of b = ucast b"

text \<open>The decoded rune and the number of bytes it takes; the string is not empty.\<close>

definition DecodeRuneInString :: "byte list \<Rightarrow> rune \<times> nat" where
  "DecodeRuneInString s =
     (let n = length s; s0 = s ! 0 in
      case first s0 of
        None \<Rightarrow> (RuneError, 1)
      | Some (sz, lo, hi) \<Rightarrow>
          if sz = 1 then (rune_of s0, 1)
          else if n < sz then (RuneError, 1)
          else let s1 = s ! 1 in
            if s1 < lo \<or> hi < s1 then (RuneError, 1)
            else if sz \<le> 2 then
              (push_bit 6 (rune_of (s0 AND 0x1F)) OR rune_of (s1 AND 0x3F), 2)
            else let s2 = s ! 2 in
              if s2 < 0x80 \<or> 0xBF < s2 then (RuneError, 1)
              else if sz \<le> 3 then
                (push_bit 12 (rune_of (s0 AND 0x0F)) OR push_bit 6 (rune_of (s1 AND 0x3F))
                   OR rune_of (s2 AND 0x3F), 3)
              else let s3 = s ! 3 in
                if s3 < 0x80 \<or> 0xBF < s3 then (RuneError, 1)
                else
                  (push_bit 18 (rune_of (s0 AND 0x07)) OR push_bit 12 (rune_of (s1 AND 0x3F))
                     OR push_bit 6 (rune_of (s2 AND 0x3F)) OR rune_of (s3 AND 0x3F), 4))"

fun decode_runes :: "byte list \<Rightarrow> rune list" where
  "decode_runes [] = []"
| "decode_runes (b # bs) =
     (case DecodeRuneInString (b # bs) of
        (r, sz) \<Rightarrow> r # decode_runes (drop (sz - 1) bs))"

definition runes_of :: "string \<Rightarrow> rune list" where
  "runes_of s = decode_runes (map byte_of s)"

section \<open>The Go library's \<^verbatim>\<open>net.ParseIP\<close>, \<^verbatim>\<open>IP.To4\<close> and \<^verbatim>\<open>IP.To16\<close>\<close>

text \<open>
  An \<^verbatim>\<open>IP\<close> is a byte slice; \<^verbatim>\<open>nil\<close> is \<open>None\<close>. The parser follows
  \<^verbatim>\<open>net/ip.go\<close> (\<^verbatim>\<open>ParseIP\<close>, \<^verbatim>\<open>parseIPv4\<close>, \<^verbatim>\<open>parseIPv6\<close>) and
  \<^verbatim>\<open>net/parse.go\<close> (\<^verbatim>\<open>dtoi\<close>, \<^verbatim>\<open>xtoi\<close>). Its integers are Go \<^verbatim>\<open>int\<close>s
  that stay below \<open>16 * 0xFFFFFF + 15\<close>, so they never overflow.
\<close>

type_synonym IP = "byte list option"

definition IPv4len :: int where "IPv4len = 4"
definition IPv6len :: int where "IPv6len = 16"
definition big :: int where "big = 0xFFFFFF"

definition ord :: "char \<Rightarrow> int" where
  "ord c = of_char c"

definition v4InV6Prefix :: "byte list" where
  "v4InV6Prefix = [0, 0, 0, 0, 0, 0, 0, 0, 0, 0, 0xff, 0xff]"

definition net_IPv4 :: "byte \<Rightarrow> byte \<Rightarrow> byte \<Rightarrow> byte \<Rightarrow> byte list" where
  "net_IPv4 a b c d = v4InV6Prefix @ [a, b, c, d]"

definition isZeros :: "byte list \<Rightarrow> bool" where
  "isZeros p = list_all (\<lambda>b. b = 0) p"

fun To4 :: "IP \<Rightarrow> IP" where
  "To4 None = None"
| "To4 (Some ip) =
     (if int (length ip) = IPv4len then Some ip
      else if int (length ip) = IPv6len \<and> isZeros (take 10 ip) \<and> ip ! 10 = 0xff \<and> ip ! 11 = 0xff
        then Some (take 4 (drop 12 ip))
      else None)"

fun To16 :: "IP \<Rightarrow> IP" where
  "To16 None = None"
| "To16 (Some ip) =
     (if int (length ip) = IPv4len then Some (net_IPv4 (ip ! 0) (ip ! 1) (ip ! 2) (ip ! 3))
      else if int (length ip) = IPv6len then Some ip
      else None)"

text \<open>\<^verbatim>\<open>dtoi\<close>: the decimal number at the start of \<open>s\<close>, the number of its digits, and
  whether there was one (and it stayed below \<open>big\<close>). The loop runs over the rest of the
  string with \<open>n\<close> and \<open>i\<close> as accumulators.\<close>

fun dtoi_loop :: "string \<Rightarrow> int \<Rightarrow> int \<Rightarrow> int \<times> int \<times> bool" where
  "dtoi_loop [] n i = (if i = 0 then (0, 0, False) else (n, i, True))"
| "dtoi_loop (c # cs) n i =
     (if ord CHR ''0'' \<le> ord c \<and> ord c \<le> ord CHR ''9'' then
        (let n' = n * 10 + (ord c - ord CHR ''0'') in
         if n' \<ge> big then (big, i, False) else dtoi_loop cs n' (i + 1))
      else if i = 0 then (0, 0, False) else (n, i, True))"

definition dtoi :: "string \<Rightarrow> int \<times> int \<times> bool" where
  "dtoi s = dtoi_loop s 0 0"

fun xtoi_loop :: "string \<Rightarrow> int \<Rightarrow> int \<Rightarrow> int \<times> int \<times> bool" where
  "xtoi_loop [] n i = (if i = 0 then (0, i, False) else (n, i, True))"
| "xtoi_loop (c # cs) n i =
     (if ord CHR ''0'' \<le> ord c \<and> ord c \<le> ord CHR ''9'' then
        (let n' = n * 16 + (ord c - ord CHR ''0'') in
         if n' \<ge> big then (0, i, False) else xtoi_loop cs n' (i + 1))
      else if ord CHR ''a'' \<le> ord c \<and> ord c \<le> ord CHR ''f'' then
        (let n' = n * 16 + (ord c - ord CHR ''a'') + 10 in
         if n' \<ge> big then (0, i, False) else xtoi_loop cs n' (i + 1))
      else if ord CHR ''A'' \<le> ord c \<and> ord c \<le> ord CHR ''F'' then
        (let n' = n * 16 + (ord c - ord CHR ''A'') + 10 in
         if n' \<ge> big then (0, i, False) else xtoi_loop cs n' (i + 1))
      else if i = 0 then (0, i, False) else (n, i, True))"

definition xtoi :: "string \<Rightarrow> int \<times> int \<times> bool" where
  "xtoi s = xtoi_loop s 0 0"

text \<open>\<^verbatim>\<open>byte(n)\<close> keeps the low eight bits; \<open>p[i] = v\<close> on a slice is a list update.\<close>

definition byte :: "int \<Rightarrow> byte" where
  "byte n = word_of_int n"

definition store :: "byte list \<Rightarrow> int \<Rightarrow> byte \<Rightarrow> byte list" where
  "store p i v = p[nat i := v]"

definition at :: "byte list \<Rightarrow> int \<Rightarrow> byte" where
  "at p i = p ! nat i"

text \<open>\<^verbatim>\<open>parseIPv4\<close>: the loop over the four octets, with the rest of the string and the
  array \<open>p\<close>; \<open>None\<close> is the \<^verbatim>\<open>return nil\<close> inside the loop.\<close>

function parseIPv4_loop :: "int \<Rightarrow> string \<Rightarrow> byte list \<Rightarrow> (string \<times> byte list) option" where
  "parseIPv4_loop i s p =
     (if \<not> i < IPv4len then Some (s, p)
      else if length s = 0 then None
      else if i > 0 \<and> s ! 0 \<noteq> CHR ''.'' then None
      else
        (let s1 = (if i > 0 then drop 1 s else s) in
         case dtoi s1 of
           (n, c, ok) \<Rightarrow>
             if \<not> ok \<or> n > 0xFF then None
             else if c > 1 \<and> s1 ! 0 = CHR ''0'' then None
             else parseIPv4_loop (i + 1) (drop (nat c) s1) (store p i (byte n))))"
  by pat_completeness auto
termination
  by (relation "measure (\<lambda>(i, s, p). nat (IPv4len - i))") auto

definition parseIPv4 :: "string \<Rightarrow> IP" where
  "parseIPv4 s =
     (case parseIPv4_loop 0 s [0, 0, 0, 0] of
        None \<Rightarrow> None
      | Some (s', p) \<Rightarrow>
          if length s' \<noteq> 0 then None
          else Some (net_IPv4 (p ! 0) (p ! 1) (p ! 2) (p ! 3)))"

text \<open>\<^verbatim>\<open>parseIPv6\<close>: the loop that reads the 16-bit groups. Its state is the write
  position \<open>i\<close>, the rest of the string, the slice \<open>ip\<close> and the position of the
  ellipsis (\<open>-1\<close> when there is none yet). \<open>None\<close> is a \<^verbatim>\<open>return nil\<close> inside the
  loop; \<open>Some\<close> is the state when the loop is left (its condition fails, or a
  \<^verbatim>\<open>break\<close>). \<open>i\<close> is even and below 16 wherever the loop writes \<open>ip[i]\<close> and
  \<open>ip[i+1]\<close>, so no write is out of range. A group has at most four hexadecimal
  digits (\<open>c > 4\<close> is refused), as in the library's current parser; its older versions
  bound only the value of the group.\<close>

function parseIPv6_loop ::
  "int \<Rightarrow> string \<Rightarrow> byte list \<Rightarrow> int \<Rightarrow> (int \<times> string \<times> byte list \<times> int) option" where
  "parseIPv6_loop i s ip ellipsis =
     (if \<not> i < IPv6len then Some (i, s, ip, ellipsis)
      else case xtoi s of
        (n, c, ok) \<Rightarrow>
          if \<not> ok \<or> n > 0xFFFF \<or> c > 4 then None
          else if c < int (length s) \<and> s ! nat c = CHR ''.'' then
            (if ellipsis < 0 \<and> i \<noteq> IPv6len - IPv4len then None
             else if i + IPv4len > IPv6len then None
             else case parseIPv4 s of
               None \<Rightarrow> None
             | Some ip4 \<Rightarrow>
                 Some (i + IPv4len, [],
                   store (store (store (store ip i (at ip4 12)) (i + 1) (at ip4 13))
                     (i + 2) (at ip4 14)) (i + 3) (at ip4 15),
                   ellipsis))
          else if length (drop (nat c) s) = 0 then
            Some (i + 2, drop (nat c) s,
              store (store ip i (byte (drop_bit 8 n))) (i + 1) (byte n), ellipsis)
          else if drop (nat c) s ! 0 \<noteq> CHR '':'' \<or> length (drop (nat c) s) = 1 then None
          else if drop 1 (drop (nat c) s) ! 0 = CHR '':'' then
            (if ellipsis \<ge> 0 then None
             else if length (drop 1 (drop 1 (drop (nat c) s))) = 0 then
               Some (i + 2, drop 1 (drop 1 (drop (nat c) s)),
                 store (store ip i (byte (drop_bit 8 n))) (i + 1) (byte n), i + 2)
             else
               parseIPv6_loop (i + 2) (drop 1 (drop 1 (drop (nat c) s)))
                 (store (store ip i (byte (drop_bit 8 n))) (i + 1) (byte n)) (i + 2))
          else
            parseIPv6_loop (i + 2) (drop 1 (drop (nat c) s))
              (store (store ip i (byte (drop_bit 8 n))) (i + 1) (byte n)) ellipsis)"
  by pat_completeness auto
termination
  by (relation "measure (\<lambda>(i, s, ip, ellipsis). nat (IPv6len - i))") auto

text \<open>The two loops that expand the ellipsis:
  \<^verbatim>\<open>for j := i - 1; j >= ellipsis; j-- { ip[j+n] = ip[j] }\<close> and
  \<^verbatim>\<open>for j := ellipsis + n - 1; j >= ellipsis; j-- { ip[j] = 0 }\<close>.\<close>

function shift_loop :: "int \<Rightarrow> int \<Rightarrow> int \<Rightarrow> byte list \<Rightarrow> byte list" where
  "shift_loop j ellipsis n ip =
     (if j \<ge> ellipsis then shift_loop (j - 1) ellipsis n (store ip (j + n) (at ip j)) else ip)"
  by pat_completeness auto
termination
  by (relation "measure (\<lambda>(j, ellipsis, n, ip). nat (j - ellipsis + 1))") auto

function zero_loop :: "int \<Rightarrow> int \<Rightarrow> byte list \<Rightarrow> byte list" where
  "zero_loop j ellipsis ip =
     (if j \<ge> ellipsis then zero_loop (j - 1) ellipsis (store ip j 0) else ip)"
  by pat_completeness auto
termination
  by (relation "measure (\<lambda>(j, ellipsis, ip). nat (j - ellipsis + 1))") auto

definition parseIPv6 :: "string \<Rightarrow> IP" where
  "parseIPv6 s0 =
     (let ip = replicate 16 0;
          lead = (length s0 \<ge> 2 \<and> s0 ! 0 = CHR '':'' \<and> s0 ! 1 = CHR '':'');
          ellipsis0 = (if lead then 0 else - 1);
          s = (if lead then drop 2 s0 else s0)
      in
        if lead \<and> length s = 0 then Some ip
        else case parseIPv6_loop 0 s ip ellipsis0 of
          None \<Rightarrow> None
        | Some (i, s', ip', ellipsis) \<Rightarrow>
            if length s' \<noteq> 0 then None
            else if i < IPv6len then
              (if ellipsis < 0 then None
               else
                 (let n = IPv6len - i in
                  Some (zero_loop (ellipsis + n - 1) ellipsis
                          (shift_loop (i - 1) ellipsis n ip'))))
            else if ellipsis \<ge> 0 then None
            else Some ip')"

text \<open>\<^verbatim>\<open>ParseIP\<close>: the first \<open>.\<close> or \<open>:\<close> of the string chooses the parser, which
  then reads the whole string.\<close>

fun ParseIP_scan :: "string \<Rightarrow> string \<Rightarrow> IP" where
  "ParseIP_scan s [] = None"
| "ParseIP_scan s (c # cs) =
     (if c = CHR ''.'' then parseIPv4 s
      else if c = CHR '':'' then parseIPv6 s
      else ParseIP_scan s cs)"

definition ParseIP :: "string \<Rightarrow> IP" where
  "ParseIP s = ParseIP_scan s s"

section \<open>The validation functions of \<^verbatim>\<open>parsing.go\<close>\<close>

text \<open>
  \<^verbatim>\<open>regexp.MatchString(VALID_FQDN_REGEX, s)\<close> returns \<^verbatim>\<open>(matched, err)\<close>. The constant
  \<^verbatim>\<open>VALID_FQDN_REGEX\<close> is declared outside \<^verbatim>\<open>parsing.go\<close>, so the call is a parameter
  of the model: \<open>rx s = Some matched\<close> when the pattern compiles, \<open>rx s = None\<close> when
  \<^verbatim>\<open>err\<close> is not nil. In that case the source logs the error and returns false.
\<close>

type_synonym matcher = "string \<Rightarrow> bool option"

definition isValidRecordName :: "matcher \<Rightarrow> string \<Rightarrow> bool" where
  "isValidRecordName rx name =
     (case rx name of
        None \<Rightarrow> False
      | Some matched \<Rightarrow> matched)"

fun isValidType_loop :: "string \<Rightarrow> string list \<Rightarrow> bool" where
  "isValidType_loop parsedType [] = False"
| "isValidType_loop parsedType (v # vs) =
     (if parsedType = v then True else isValidType_loop parsedType vs)"

definition isValidType :: "string \<Rightarrow> bool" where
  "isValidType parsedType = isValidType_loop parsedType PermittedRecordTypes"

text \<open>The loop \<^verbatim>\<open>for i := 0; i < len(runes)-1; i++\<close> of \<^verbatim>\<open>isValidTarget\<close>: \<open>False\<close>
  when it leaves through \<^verbatim>\<open>return false\<close>, \<open>True\<close> when it runs to its end.\<close>

function runes_loop :: "rune list \<Rightarrow> int \<Rightarrow> bool" where
  "runes_loop runes i =
     (if i < int (length runes) - 1 then
        (if runes ! nat (i + 1) = runes ! nat i then False else runes_loop runes (i + 1))
      else True)"
  by pat_completeness auto
termination
  by (relation "measure (\<lambda>(runes, i). nat (int (length runes) - 1 - i))") auto

definition isValidTarget :: "matcher \<Rightarrow> string \<Rightarrow> string \<Rightarrow> bool" where
  "isValidTarget rx parsedType parsedTarget =
     (let runes = runes_of parsedTarget in
      if parsedType = ''A'' then To4 (ParseIP parsedTarget) \<noteq> None
      else if parsedType = ''AAAA'' then To16 (ParseIP parsedTarget) \<noteq> None
      else if parsedType = ''CNAME'' then
        (case rx parsedTarget of
           None \<Rightarrow> False
         | Some matched \<Rightarrow> if \<not> runes_loop runes 0 then False else matched)
      else False)"

text \<open>\<^verbatim>\<open>ValidateNameserver\<close> takes a pointer and writes through it; the model returns the
  nameserver as the call leaves it, together with the error (\<open>None\<close> is \<^verbatim>\<open>nil\<close>).\<close>

definition ValidateNameserver :: "Nameserver \<Rightarrow> Nameserver \<times> error option" where
  "ValidateNameserver ns0 =
     (let ns = (if Port ns0 = 0 then ns0\<lparr>Port := 53\<rparr> else ns0) in
      if IPv4 ns = [] \<and> IPv6 ns = [] then (ns, Some NameserverMissing)
      else if IPv4 ns \<noteq> [] \<and> ParseIP (IPv4 ns) = None then
        (ns, Some (NameserverIPv4Invalid (IPv4 ns)))
      else if IPv6 ns \<noteq> [] \<and> ParseIP (IPv6 ns) = None then
        (ns, Some (NameserverIPv6Invalid (IPv6 ns)))
      else (ns, None))"

text \<open>The loop \<^verbatim>\<open>for k, v := range config.LocalRecords\<close> of \<^verbatim>\<open>LoadConfig\<close>: the error
  it returns, or \<open>None\<close> when every record passes.\<close>

fun LoadConfig_records :: "matcher \<Rightarrow> nat \<Rightarrow> LocalDNSRecord list \<Rightarrow> error option" where
  "LoadConfig_records rx k [] = None"
| "LoadConfig_records rx k (v # vs) =
     (if \<not> isValidRecordName rx (Name v) then Some (NameInvalid k)
      else if \<not> isValidType (Type v) then Some (TypeInvalid k)
      else if TTL v = 0 then Some (TTLInvalid k)
      else if \<not> isValidTarget rx (Type v) (Target v) then Some (TargetInvalid k)
      else LoadConfig_records rx (k + 1) vs)"

text \<open>
  \<^verbatim>\<open>LoadConfig\<close>. Opening the file and decoding it are the parameters \<open>os_Open\<close> and
  \<open>Decode\<close> (\<open>Inl\<close> is their error); the result is the pair the source returns, with
  \<open>None\<close> for \<^verbatim>\<open>nil\<close>.
\<close>

definition LoadConfig ::
  "matcher \<Rightarrow> (string \<Rightarrow> string + 'f) \<Rightarrow> ('f \<Rightarrow> string + Configuration) \<Rightarrow> string
     \<Rightarrow> Configuration option \<times> error option" where
  "LoadConfig rx os_Open Decode filePath =
     (case os_Open filePath of
        Inl err \<Rightarrow> (None, Some (OpenError err))
      | Inr file \<Rightarrow>
          (case Decode file of
             Inl err \<Rightarrow> (None, Some (DecodeError err))
           | Inr config \<Rightarrow>
               (case LoadConfig_records rx 0 (LocalRecords config) of
                  Some err \<Rightarrow> (None, Some err)
                | None \<Rightarrow>
                    (case ValidateNameserver (Primary (UpstreamNameservers config)) of
                       (primary, Some err) \<Rightarrow> (None, Some err)
                     | (primary, None) \<Rightarrow>
                         (case ValidateNameserver (Secondary (UpstreamNameservers config)) of
                            (secondary, Some err) \<Rightarrow> (None, Some err)
                          | (secondary, None) \<Rightarrow>
                              (let up = (UpstreamNameservers config)
                                          \<lparr>Primary := primary, Secondary := secondary\<rparr>;
                                   up' = (if TimeoutMs up = 0 then up\<lparr>TimeoutMs := 5000\<rparr> else up)
                               in (Some (config\<lparr>UpstreamNameservers := up'\<rparr>), None)))))))"

text \<open>
  Modelled from the spec: the pattern \<^verbatim>\<open>VALID_FQDN_REGEX\<close> is not part of
  \<^verbatim>\<open>parsing.go\<close>. The spec describes it as an anchored pattern of dot-separated labels,
  each label of alphanumeric characters and hyphens, ending in a trailing label separator
  (the shape \<^verbatim>\<open>sub.domain.name.\<close>). \<open>VALID_FQDN\<close> is a matcher for that grammar; it
  is used where a concrete input is evaluated, the theorems hold for every matcher.
\<close>

definition label_char :: "char \<Rightarrow> bool" where
  "label_char c =
     ((ord CHR ''0'' \<le> ord c \<and> ord c \<le> ord CHR ''9'')
      \<or> (ord CHR ''a'' \<le> ord c \<and> ord c \<le> ord CHR ''z'')
      \<or> (ord CHR ''A'' \<le> ord c \<and> ord c \<le> ord CHR ''Z'')
      \<or> c = CHR ''-'')"

fun fqdn_labels :: "string \<Rightarrow> nat \<Rightarrow> bool" where
  "fqdn_labels [] n = False"
| "fqdn_labels (c # cs) n =
     (if c = CHR ''.'' then 0 < n \<and> (cs = [] \<or> fqdn_labels cs 0)
      else label_char c \<and> fqdn_labels cs (Suc n))"

definition VALID_FQDN :: matcher where
  "VALID_FQDN s = Some (fqdn_labels s 0)"

section \<open>Specification-side definitions\<close>

text \<open>What \<^verbatim>\<open>ValidateNameserver\<close> is meant to leave behind: the port defaulted to 53.\<close>

definition normalized :: "Nameserver \<Rightarrow> Nameserver" where
  "normalized ns = ns\<lparr>Port := (if Port ns = 0 then 53 else Port ns)\<rparr>"

definition normalized_config :: "Configuration \<Rightarrow> Configuration" where
  "normalized_config c =
     c\<lparr>UpstreamNameservers :=
         \<lparr>Primary = normalized (Primary (UpstreamNameservers c)),
          Secondary = normalized (Secondary (UpstreamNameservers c)),
          TimeoutMs = (if TimeoutMs (UpstreamNameservers c) = 0 then 5000
                       else TimeoutMs (UpstreamNameservers c))\<rparr>\<rparr>"

text \<open>A valid nameserver: at least one address, and every address given is an IP literal.\<close>

definition nameserver_ok :: "Nameserver \<Rightarrow> bool" where
  "nameserver_ok ns =
     ((IPv4 ns \<noteq> [] \<or> IPv6 ns \<noteq> [])
      \<and> (IPv4 ns \<noteq> [] \<longrightarrow> ParseIP (IPv4 ns) \<noteq> None)
      \<and> (IPv6 ns \<noteq> [] \<longrightarrow> ParseIP (IPv6 ns) \<noteq> None))"

text \<open>A record that passes the four checks of the loop, and the error of the first check
  that a record fails.\<close>

definition record_ok :: "matcher \<Rightarrow> LocalDNSRecord \<Rightarrow> bool" where
  "record_ok rx v =
     (isValidRecordName rx (Name v) \<and> isValidType (Type v) \<and> TTL v \<noteq> 0
      \<and> isValidTarget rx (Type v) (Target v))"

definition record_error :: "matcher \<Rightarrow> nat \<Rightarrow> LocalDNSRecord \<Rightarrow> error" where
  "record_error rx k v =
     (if \<not> isValidRecordName rx (Name v) then NameInvalid k
      else if \<not> isValidType (Type v) then TypeInvalid k
      else if TTL v = 0 then TTLInvalid k
      else TargetInvalid k)"

text \<open>The record index a validation error refers to, if it is about a record.\<close>

fun record_index :: "error \<Rightarrow> nat option" where
  "record_index (NameInvalid k) = Some k"
| "record_index (TypeInvalid k) = Some k"
| "record_index (TTLInvalid k) = Some k"
| "record_index (TargetInvalid k) = Some k"
| "record_index _ = None"

text \<open>
  A well-formed record in the words of the field rules: the name matches the FQDN grammar,
  the type is one of the three permitted ones, the TTL is not zero, and the target is an
  IPv4 literal in 4-octet form for \<open>A\<close>, an IPv6 literal for \<open>AAAA\<close>, and for
  \<open>CNAME\<close> a match of the FQDN grammar without two identical consecutive characters.
\<close>

definition well_formed :: "matcher \<Rightarrow> LocalDNSRecord \<Rightarrow> bool" where
  "well_formed rx v =
     (rx (Name v) = Some True
      \<and> Type v \<in> {''A'', ''AAAA'', ''CNAME''}
      \<and> TTL v \<noteq> 0
      \<and> (Type v = ''A'' \<longrightarrow> parseIPv4 (Target v) \<noteq> None)
      \<and> (Type v = ''AAAA'' \<longrightarrow> parseIPv6 (Target v) \<noteq> None)
      \<and> (Type v = ''CNAME'' \<longrightarrow>
           rx (Target v) = Some True
           \<and> \<not> (\<exists>j. j + 1 < length (runes_of (Target v))
                  \<and> runes_of (Target v) ! (j + 1) = runes_of (Target v) ! j)))"




definition nameserver_violations :: "Nameserver \<Rightarrow> error list" where
  "nameserver_violations ns =
     (if IPv4 ns = [] \<and> IPv6 ns = [] then [NameserverMissing] else [])
     @ (if IPv4 ns \<noteq> [] \<and> ParseIP (IPv4 ns) = None then [NameserverIPv4Invalid (IPv4 ns)] else [])
     @ (if IPv6 ns \<noteq> [] \<and> ParseIP (IPv6 ns) = None then [NameserverIPv6Invalid (IPv6 ns)] else [])"


definition first_error :: "error list \<Rightarrow> error option" where
  "first_error es = (case es of [] \<Rightarrow> None | e # _ \<Rightarrow> Some e)"

text \<open>Concrete inputs: a file that opens, a decoder that yields a given configuration, and
  the upstream section of the example scenario
  \<^verbatim>\<open>{Primary:{IPv4:"1.1.1.1"},Secondary:{IPv4:"8.8.8.8"}}\<close>.\<close>

definition open_ok :: "string \<Rightarrow> string + unit" where
  "open_ok filePath = Inr ()"

definition decode_to :: "Configuration \<Rightarrow> unit \<Rightarrow> string + Configuration" where
  "decode_to c file = Inr c"

definition local_record :: "string \<Rightarrow> string \<Rightarrow> uint32 \<Rightarrow> string \<Rightarrow> LocalDNSRecord" where
  "local_record n t ttl tg = \<lparr>Name = n, Type = t, TTL = ttl, Target = tg\<rparr>"

definition example_upstream :: UpstreamNameservers where
  "example_upstream =
     \<lparr>Primary = \<lparr>IPv4 = ''1.1.1.1'', IPv6 = [], Port = 0\<rparr>,
      Secondary = \<lparr>IPv4 = ''8.8.8.8'', IPv6 = [], Port = 0\<rparr>,
      TimeoutMs = 0\<rparr>"

definition config_of :: "LocalDNSRecord list \<Rightarrow> Configuration" where
  "config_of rs = \<lparr>LocalRecords = rs, UpstreamNameservers = example_upstream\<rparr>"

declare parseIPv4_loop.simps [simp del] parseIPv6_loop.simps [simp del]
  shift_loop.simps [simp del] zero_loop.simps [simp del] runes_loop.simps [simp del]

section \<open>Lemmas: \<^verbatim>\<open>ValidateNameserver\<close>\<close>

lemma fst_ValidateNameserver: "fst (ValidateNameserver ns) = normalized ns"
  by (simp add: ValidateNameserver_def normalized_def Let_def)

lemma snd_ValidateNameserver_None: "(snd (ValidateNameserver ns) = None) = nameserver_ok ns"
  by (auto simp add: ValidateNameserver_def nameserver_ok_def Let_def)

lemma normalized_idem: "normalized (normalized ns) = normalized ns"
  by (simp add: normalized_def)

lemma nameserver_ok_normalized: "nameserver_ok (normalized ns) = nameserver_ok ns"
  by (simp add: nameserver_ok_def normalized_def)

lemma snd_ValidateNameserver_first:
  "snd (ValidateNameserver ns) = first_error (nameserver_violations ns)"
  by (simp add: ValidateNameserver_def nameserver_violations_def first_error_def Let_def)

lemma nameserver_ok_violations: "nameserver_ok ns = (nameserver_violations ns = [])"
  by (auto simp add: nameserver_ok_def nameserver_violations_def)

lemma ValidateNameserver_eq: "ValidateNameserver ns = (normalized ns, first_error (nameserver_violations ns))"
  using fst_ValidateNameserver [of ns] snd_ValidateNameserver_first [of ns]
  by (simp add: prod_eq_iff)

section \<open>Lemmas: the checks of a record and the loop over the records\<close>

lemma isValidType_iff: "isValidType t = (t \<in> {''A'', ''AAAA'', ''CNAME''})"
  by (auto simp add: isValidType_def PermittedRecordTypes_def)

lemma isValidRecordName_iff: "isValidRecordName rx n = (rx n = Some True)"
  by (auto simp add: isValidRecordName_def split: option.splits)



lemma LoadConfig_records_step:
  "LoadConfig_records rx k (v # vs) =
     (if record_ok rx v then LoadConfig_records rx (k + 1) vs else Some (record_error rx k v))"
  by (simp add: record_ok_def record_error_def)


lemma LoadConfig_records_None: "(LoadConfig_records rx k vs = None) = list_all (record_ok rx) vs"
  by (induction vs arbitrary: k) (simp_all add: LoadConfig_records_step del: LoadConfig_records.simps(2))

lemma LoadConfig_records_Some:
  "LoadConfig_records rx k vs = Some e \<Longrightarrow>
     \<exists>j<length vs. (\<forall>i<j. record_ok rx (vs ! i)) \<and> \<not> record_ok rx (vs ! j)
        \<and> e = record_error rx (k + j) (vs ! j)"
proof (induction vs arbitrary: k)
  case Nil
  then show ?case by simp
next
  case (Cons v vs)
  show ?case
  proof (cases "record_ok rx v")
    case False
    with Cons.prems have "e = record_error rx k v" by (simp add: LoadConfig_records_step del: LoadConfig_records.simps)
    with False show ?thesis by (intro exI [of _ 0]) simp
  next
    case True
    with Cons.prems have "LoadConfig_records rx (k + 1) vs = Some e"
      by (simp add: LoadConfig_records_step del: LoadConfig_records.simps)
    from Cons.IH [OF this] obtain j where j: "j < length vs" "\<forall>i<j. record_ok rx (vs ! i)"
      "\<not> record_ok rx (vs ! j)" "e = record_error rx (k + 1 + j) (vs ! j)" by blast
    have "\<forall>i<Suc j. record_ok rx ((v # vs) ! i)"
      using True j(2) by (auto simp add: nth_Cons split: nat.splits)
    with j show ?thesis by (intro exI [of _ "Suc j"]) simp
  qed
qed

lemma record_index_record_error: "record_index (record_error rx k v) = Some k"
  by (simp add: record_error_def)

section \<open>Lemmas: the IP parser returns sixteen bytes\<close>

lemma length_store: "length (store p i v) = length p"
  by (simp add: store_def)

lemma length_net_IPv4: "length (net_IPv4 a b c d) = 16"
  by (simp add: net_IPv4_def v4InV6Prefix_def)

lemma take_net_IPv4: "take 12 (net_IPv4 a b c d) = v4InV6Prefix"
  by (simp add: net_IPv4_def v4InV6Prefix_def)

lemma parseIPv4_Some: "parseIPv4 s = Some ip \<Longrightarrow> length ip = 16 \<and> take 12 ip = v4InV6Prefix"
  by (auto simp add: parseIPv4_def length_net_IPv4 take_net_IPv4 split: option.splits if_splits)

lemma length_shift_loop: "length (shift_loop j e n ip) = length ip"
proof (induction j e n ip rule: shift_loop.induct)
  case (1 j ellipsis n ip)
  then show ?case by (subst shift_loop.simps) (simp add: length_store)
qed

lemma length_zero_loop: "length (zero_loop j e ip) = length ip"
proof (induction j e ip rule: zero_loop.induct)
  case (1 j ellipsis ip)
  then show ?case by (subst zero_loop.simps) (simp add: length_store)
qed

lemma length_parseIPv6_loop:
  "parseIPv6_loop i s ip e = Some (i', s', ip', e') \<Longrightarrow> length ip' = length ip"
proof (induction "nat (IPv6len - i)" arbitrary: i s ip e rule: less_induct)
  case less
  have IH: "parseIPv6_loop i2 s2 ip2 e2 = Some (i', s', ip', e') \<Longrightarrow> i2 = i + 2 \<Longrightarrow> i < IPv6len
      \<Longrightarrow> length ip' = length ip2" for i2 s2 ip2 e2
    by (rule less.hyps) (simp_all add: IPv6len_def)
  from less.prems show ?case
    by (subst (asm) parseIPv6_loop.simps)
       (auto simp add: length_store split: if_splits prod.splits option.splits dest!: IH)
qed

lemma parseIPv6_Some: "parseIPv6 s = Some ip \<Longrightarrow> length ip = 16"
  by (auto simp add: parseIPv6_def Let_def length_zero_loop length_shift_loop
      split: option.splits if_splits dest!: length_parseIPv6_loop)

lemma ParseIP_scan_Some: "ParseIP_scan s t = Some ip \<Longrightarrow> length ip = 16"
  by (induction t) (auto split: if_splits dest: parseIPv4_Some parseIPv6_Some)

lemma ParseIP_Some: "ParseIP s = Some ip \<Longrightarrow> length ip = 16"
  by (simp add: ParseIP_def ParseIP_scan_Some)

section \<open>Lemmas: which parser \<^verbatim>\<open>ParseIP\<close> chooses\<close>

lemma digit_not_sep:
  "ord CHR ''0'' \<le> ord c \<Longrightarrow> ord c \<le> ord CHR ''9'' \<Longrightarrow> c \<noteq> CHR ''.'' \<and> c \<noteq> CHR '':''"
  by (auto simp add: ord_def)

lemma lower_not_sep:
  "ord CHR ''a'' \<le> ord c \<Longrightarrow> ord c \<le> ord CHR ''f'' \<Longrightarrow> c \<noteq> CHR ''.'' \<and> c \<noteq> CHR '':''"
  by (auto simp add: ord_def)

lemma upper_not_sep:
  "ord CHR ''A'' \<le> ord c \<Longrightarrow> ord c \<le> ord CHR ''F'' \<Longrightarrow> c \<noteq> CHR ''.'' \<and> c \<noteq> CHR '':''"
  by (auto simp add: ord_def)

lemma dtoi_loop_ok:
  "dtoi_loop s n i = (m, c, True) \<Longrightarrow> 0 \<le> i \<Longrightarrow>
     i \<le> c \<and> 0 < c \<and> nat (c - i) \<le> length s
     \<and> (\<forall>j<nat (c - i). s ! j \<noteq> CHR ''.'' \<and> s ! j \<noteq> CHR '':'')"
proof (induction s arbitrary: n i)
  case Nil
  then show ?case by (simp split: if_splits)
next
  case (Cons a s)
  show ?case
  proof (cases "ord CHR ''0'' \<le> ord a \<and> ord a \<le> ord CHR ''9''")
    case False
    with Cons.prems show ?thesis by (simp split: if_splits)
  next
    case True
    with Cons.prems have rec: "dtoi_loop s (n * 10 + (ord a - ord CHR ''0'')) (i + 1) = (m, c, True)"
      by (simp add: Let_def split: if_splits)
    from Cons.IH [OF rec] Cons.prems(2)
    have ih: "i + 1 \<le> c" "nat (c - (i + 1)) \<le> length s"
      "\<forall>j<nat (c - (i + 1)). s ! j \<noteq> CHR ''.'' \<and> s ! j \<noteq> CHR '':''" by simp_all
    have n: "nat (c - i) = Suc (nat (c - (i + 1)))" using ih(1) by simp
    have "\<forall>j<nat (c - i). (a # s) ! j \<noteq> CHR ''.'' \<and> (a # s) ! j \<noteq> CHR '':''"
      unfolding n using ih(3) digit_not_sep [of a] True
      by (auto simp add: nth_Cons split: nat.splits)
    then show ?thesis using ih Cons.prems(2) n by simp
  qed
qed

lemma xtoi_loop_ok:
  "xtoi_loop s n i = (m, c, True) \<Longrightarrow> 0 \<le> i \<Longrightarrow>
     i \<le> c \<and> 0 < c \<and> nat (c - i) \<le> length s
     \<and> (\<forall>j<nat (c - i). s ! j \<noteq> CHR ''.'' \<and> s ! j \<noteq> CHR '':'')"
proof (induction s arbitrary: n i)
  case Nil
  then show ?case by (simp split: if_splits)
next
  case (Cons a s)
  show ?case
  proof (cases "(ord CHR ''0'' \<le> ord a \<and> ord a \<le> ord CHR ''9'')
      \<or> (ord CHR ''a'' \<le> ord a \<and> ord a \<le> ord CHR ''f'')
      \<or> (ord CHR ''A'' \<le> ord a \<and> ord a \<le> ord CHR ''F'')")
    case False
    with Cons.prems show ?thesis by (simp split: if_splits)
  next
    case True
    with Cons.prems obtain n' where rec: "xtoi_loop s n' (i + 1) = (m, c, True)"
      by (auto simp add: Let_def split: if_splits)
    from Cons.IH [OF rec] Cons.prems(2)
    have ih: "i + 1 \<le> c" "nat (c - (i + 1)) \<le> length s"
      "\<forall>j<nat (c - (i + 1)). s ! j \<noteq> CHR ''.'' \<and> s ! j \<noteq> CHR '':''" by simp_all
    have n: "nat (c - i) = Suc (nat (c - (i + 1)))" using ih(1) by simp
    have a: "a \<noteq> CHR ''.'' \<and> a \<noteq> CHR '':''"
      using True digit_not_sep [of a] lower_not_sep [of a] upper_not_sep [of a] by blast
    have "\<forall>j<nat (c - i). (a # s) ! j \<noteq> CHR ''.'' \<and> (a # s) ! j \<noteq> CHR '':''"
      unfolding n using ih(3) a
      by (auto simp add: nth_Cons split: nat.splits)
    then show ?thesis using ih Cons.prems(2) n by simp
  qed
qed

lemma ParseIP_scan_skip:
  "m < length t \<Longrightarrow> \<forall>j<m. t ! j \<noteq> CHR ''.'' \<and> t ! j \<noteq> CHR '':'' \<Longrightarrow>
     ParseIP_scan s t =
       (if t ! m = CHR ''.'' then parseIPv4 s
        else if t ! m = CHR '':'' then parseIPv6 s
        else ParseIP_scan s (drop (Suc m) t))"
proof (induction t arbitrary: m)
  case Nil
  then show ?case by simp
next
  case (Cons a t)
  show ?case
  proof (cases m)
    case 0
    then show ?thesis by simp
  next
    case (Suc k)
    with Cons.prems have "k < length t" and "\<forall>j<k. t ! j \<noteq> CHR ''.'' \<and> t ! j \<noteq> CHR '':''"
      and "a \<noteq> CHR ''.'' \<and> a \<noteq> CHR '':''" by auto
    with Cons.IH [of k] Suc show ?thesis by simp
  qed
qed

lemma parseIPv4_loop_first_dot:
  assumes "parseIPv4_loop 0 s p = Some r"
  shows "\<exists>m<length s. s ! m = CHR ''.'' \<and> (\<forall>j<m. s ! j \<noteq> CHR ''.'' \<and> s ! j \<noteq> CHR '':'')"
proof -
  obtain n c ok where d: "dtoi s = (n, c, ok)" by (cases "dtoi s")
  from assms d have ok: "ok"
    and rest: "parseIPv4_loop 1 (drop (nat c) s) (store p 0 (byte n)) = Some r"
    by (subst (asm) parseIPv4_loop.simps, simp add: IPv4len_def split: if_splits)+
  from rest have dot: "length (drop (nat c) s) \<noteq> 0 \<and> drop (nat c) s ! 0 = CHR ''.''"
    by (subst (asm) parseIPv4_loop.simps) (simp add: IPv4len_def split: if_splits)
  from d ok have "dtoi_loop s 0 0 = (n, c, True)" by (simp add: dtoi_def)
  from dtoi_loop_ok [OF this] have "\<forall>j<nat c. s ! j \<noteq> CHR ''.'' \<and> s ! j \<noteq> CHR '':''" by simp
  moreover from dot have "nat c < length s" and "s ! nat c = CHR ''.''" by auto
  ultimately show ?thesis by blast
qed

lemma parseIPv4_ParseIP: "parseIPv4 s \<noteq> None \<Longrightarrow> ParseIP s = parseIPv4 s"
proof -
  assume "parseIPv4 s \<noteq> None"
  then obtain r where "parseIPv4_loop 0 s [0, 0, 0, 0] = Some r"
    by (auto simp add: parseIPv4_def split: option.splits)
  from parseIPv4_loop_first_dot [OF this] obtain m where
    "m < length s" "s ! m = CHR ''.''" "\<forall>j<m. s ! j \<noteq> CHR ''.'' \<and> s ! j \<noteq> CHR '':''" by blast
  then show ?thesis using ParseIP_scan_skip [of m s s] by (simp add: ParseIP_def)
qed

lemma parseIPv6_loop_first_colon:
  assumes "parseIPv6_loop 0 s ip (- 1) = Some (i, s', ip', e)" and "\<not> (i < IPv6len \<and> e < 0)"
  shows "\<exists>m<length s. s ! m = CHR '':'' \<and> (\<forall>j<m. s ! j \<noteq> CHR ''.'' \<and> s ! j \<noteq> CHR '':'')"
proof -
  obtain n c ok where x: "xtoi s = (n, c, ok)" by (cases "xtoi s")
  from assms x have ok: "ok" and colon: "length (drop (nat c) s) \<noteq> 0 \<and> drop (nat c) s ! 0 = CHR '':''"
    by (subst (asm) parseIPv6_loop.simps, auto simp add: IPv6len_def IPv4len_def split: if_splits)+
  from x ok have "xtoi_loop s 0 0 = (n, c, True)" by (simp add: xtoi_def)
  from xtoi_loop_ok [OF this] have "\<forall>j<nat c. s ! j \<noteq> CHR ''.'' \<and> s ! j \<noteq> CHR '':''" by simp
  moreover from colon have "nat c < length s" and "s ! nat c = CHR '':''" by auto
  ultimately show ?thesis by blast
qed

lemma parseIPv6_ParseIP: "parseIPv6 s \<noteq> None \<Longrightarrow> ParseIP s = parseIPv6 s"
proof (cases "length s \<ge> 2 \<and> s ! 0 = CHR '':'' \<and> s ! 1 = CHR '':''")
  case True
  then obtain a t where "s = a # t" by (cases s) auto
  with True show ?thesis by (simp add: ParseIP_def)
next
  case False
  assume "parseIPv6 s \<noteq> None"
  with False obtain i s' ip' e where "parseIPv6_loop 0 s (replicate 16 0) (- 1) = Some (i, s', ip', e)"
    and "\<not> (i < IPv6len \<and> e < 0)"
    by (auto simp add: parseIPv6_def Let_def split: option.splits if_splits)
  from parseIPv6_loop_first_colon [OF this] obtain m where
    "m < length s" "s ! m = CHR '':''" "\<forall>j<m. s ! j \<noteq> CHR ''.'' \<and> s ! j \<noteq> CHR '':''" by blast
  then show ?thesis using ParseIP_scan_skip [of m s s] by (simp add: ParseIP_def)
qed

section \<open>Lemmas: target validation\<close>

lemma mapped_prefix:
  "length ip = 16 \<Longrightarrow>
     (isZeros (take 10 ip) \<and> ip ! 10 = 0xff \<and> ip ! 11 = 0xff) = (take 12 ip = v4InV6Prefix)"
  by (simp add: isZeros_def list_all_length list_eq_iff_nth_eq v4InV6Prefix_def
      eval_nat_numeral All_less_Suc nth_Cons' conj_ac)

lemma isValidTarget_A:
  "isValidTarget rx ''A'' t = (\<exists>ip. ParseIP t = Some ip \<and> take 12 ip = v4InV6Prefix)"
proof (cases "ParseIP t")
  case None
  then show ?thesis by (simp add: isValidTarget_def)
next
  case (Some ip)
  then have "length ip = 16" by (rule ParseIP_Some)
  with Some mapped_prefix [of ip] show ?thesis
    by (simp add: isValidTarget_def IPv4len_def IPv6len_def)
qed

lemma isValidTarget_AAAA: "isValidTarget rx ''AAAA'' t = (ParseIP t \<noteq> None)"
proof (cases "ParseIP t")
  case None
  then show ?thesis by (simp add: isValidTarget_def)
next
  case (Some ip)
  then have "length ip = 16" by (rule ParseIP_Some)
  with Some show ?thesis
    by (simp add: isValidTarget_def IPv4len_def IPv6len_def)
qed

lemma runes_loop_iff:
  "0 \<le> i \<Longrightarrow> runes_loop rs i = (\<forall>j. nat i \<le> j \<and> j + 1 < length rs \<longrightarrow> rs ! (j + 1) \<noteq> rs ! j)"
proof (induction rs i rule: runes_loop.induct)
  case (1 runes i)
  show ?case
  proof (cases "i < int (length runes) - 1")
    case False
    then show ?thesis using 1(2) by (subst runes_loop.simps) auto
  next
    case True
    show ?thesis
    proof (cases "runes ! nat (i + 1) = runes ! nat i")
      case eq: True
      have "nat i + 1 < length runes" using True 1(2) by linarith
      moreover have "runes ! (nat i + 1) = runes ! nat i" using eq 1(2) by (simp add: nat_add_distrib)
      ultimately have "\<not> (\<forall>j. nat i \<le> j \<and> j + 1 < length runes \<longrightarrow> runes ! (j + 1) \<noteq> runes ! j)"
        by blast
      then show ?thesis using True eq by (subst runes_loop.simps) simp
    next
      case neq: False
      have ih: "runes_loop runes (i + 1) = (\<forall>j. nat (i + 1) \<le> j \<and> j + 1 < length runes \<longrightarrow> runes ! (j + 1) \<noteq> runes ! j)"
        using 1(1) [OF True neq] 1(2) by simp
      have n: "nat (i + 1) = nat i + 1" using 1(2) by (simp add: nat_add_distrib)
      have "(\<forall>j. nat i \<le> j \<and> j + 1 < length runes \<longrightarrow> runes ! (j + 1) \<noteq> runes ! j)
          = (\<forall>j. nat i + 1 \<le> j \<and> j + 1 < length runes \<longrightarrow> runes ! (j + 1) \<noteq> runes ! j)"
        (is "?L = ?R")
      proof
        assume ?L then show ?R by auto
      next
        assume r: ?R
        show ?L
        proof (intro allI impI)
          fix j assume j: "nat i \<le> j \<and> j + 1 < length runes"
          show "runes ! (j + 1) \<noteq> runes ! j"
          proof (cases "j = nat i")
            case True then show ?thesis using neq n by simp
          next
            case False then show ?thesis using r j by auto
          qed
        qed
      qed
      then show ?thesis using True neq ih n by (subst runes_loop.simps) simp
    qed
  qed
qed

lemma isValidTarget_CNAME:
  "isValidTarget rx ''CNAME'' t =
     (rx t = Some True
      \<and> \<not> (\<exists>j. j + 1 < length (runes_of t) \<and> runes_of t ! (j + 1) = runes_of t ! j))"
  using runes_loop_iff [of 0 "runes_of t"]
  by (auto simp add: isValidTarget_def Let_def split: option.splits)

lemma well_formed_record_ok: "well_formed rx v \<Longrightarrow> record_ok rx v"
  unfolding well_formed_def record_ok_def isValidType_iff isValidRecordName_iff
  using isValidTarget_A [of rx "Target v"] isValidTarget_AAAA [of rx "Target v"]
    isValidTarget_CNAME [of rx "Target v"] parseIPv4_ParseIP [of "Target v"]
    parseIPv6_ParseIP [of "Target v"] parseIPv4_Some [of "Target v"]
  by auto

section \<open>Lemmas: \<^verbatim>\<open>LoadConfig\<close> on a decoded configuration\<close>

lemma LoadConfig_decoded:
  assumes "os_Open p = Inr f" and "Decode f = Inr c"
  shows "LoadConfig rx os_Open Decode p =
     (case LoadConfig_records rx 0 (LocalRecords c) of
        Some e \<Rightarrow> (None, Some e)
      | None \<Rightarrow>
         (case first_error (nameserver_violations (Primary (UpstreamNameservers c))) of
            Some e \<Rightarrow> (None, Some e)
          | None \<Rightarrow>
             (case first_error (nameserver_violations (Secondary (UpstreamNameservers c))) of
                Some e \<Rightarrow> (None, Some e)
              | None \<Rightarrow> (Some (normalized_config c), None))))"
  using assms
  by (cases "UpstreamNameservers c")
     (simp add: LoadConfig_def ValidateNameserver_eq normalized_config_def Let_def
        split: option.splits)

lemma LoadConfig_ok:
  assumes "os_Open p = Inr f" and "Decode f = Inr c"
    and "list_all (record_ok rx) (LocalRecords c)"
    and "nameserver_ok (Primary (UpstreamNameservers c))"
    and "nameserver_ok (Secondary (UpstreamNameservers c))"
  shows "LoadConfig rx os_Open Decode p = (Some (normalized_config c), None)"
proof -
  have "LoadConfig_records rx 0 (LocalRecords c) = None"
    using assms(3) by (simp add: LoadConfig_records_None)
  then show ?thesis
    unfolding LoadConfig_decoded [where os_Open = os_Open and Decode = Decode and p = p and f = f and c = c, OF assms(1,2)]
    using assms(4,5) by (simp add: nameserver_ok_violations first_error_def)
qed

lemma LoadConfig_Some:
  assumes "os_Open p = Inr f" and "Decode f = Inr c"
    and "LoadConfig rx os_Open Decode p = (Some c', err)"
  shows "c' = normalized_config c \<and> err = None"
  using assms(3)
  unfolding LoadConfig_decoded [where os_Open = os_Open and Decode = Decode and p = p and f = f and c = c, OF assms(1,2)]
  by (auto split: option.splits)

lemma LoadConfig_bad_record:
  assumes "os_Open p = Inr f" and "Decode f = Inr c"
    and "k < length (LocalRecords c)" and "\<not> record_ok rx (LocalRecords c ! k)"
  shows "\<exists>j\<le>k. LoadConfig rx os_Open Decode p = (None, Some (record_error rx j (LocalRecords c ! j)))
           \<and> \<not> record_ok rx (LocalRecords c ! j) \<and> (\<forall>i<j. record_ok rx (LocalRecords c ! i))"
proof -
  have "\<not> list_all (record_ok rx) (LocalRecords c)"
    using assms(3,4) by (auto simp add: list_all_length)
  then obtain e where e: "LoadConfig_records rx 0 (LocalRecords c) = Some e"
    using LoadConfig_records_None [of rx 0 "LocalRecords c"] by (cases "LoadConfig_records rx 0 (LocalRecords c)") auto
  from LoadConfig_records_Some [OF e] obtain j where j: "j < length (LocalRecords c)"
    "\<forall>i<j. record_ok rx (LocalRecords c ! i)" "\<not> record_ok rx (LocalRecords c ! j)"
    "e = record_error rx j (LocalRecords c ! j)" by auto
  have "j \<le> k" using j(2) assms(4) by (meson not_le)
  moreover have "LoadConfig rx os_Open Decode p = (None, Some e)"
    unfolding LoadConfig_decoded [where os_Open = os_Open and Decode = Decode and p = p and f = f and c = c, OF assms(1,2)]
    by (simp add: e)
  ultimately show ?thesis using j by blast
qed


section \<open>Lemmas: the target rules and the violations they give\<close>







section \<open>The claims\<close>

text \<open>
  Claim C1 (an \<open>AAAA\<close> target that is an IPv4-only literal fails validation and
  \<^verbatim>\<open>LoadConfig\<close> rejects the configuration). The code does not do this: the check
  \<^verbatim>\<open>net.ParseIP(t).To16() != nil\<close> holds for every IP literal, since \<^verbatim>\<open>ParseIP\<close>
  returns the 16-byte form of an IPv4 address too. The theorem evaluates the code at the
  target \<^verbatim>\<open>1.2.3.4\<close>: it is an IPv4 literal, not an IPv6 literal, it passes as an
  \<open>AAAA\<close> target, and \<^verbatim>\<open>LoadConfig\<close> returns a configuration with such a record
  and no error.
\<close>

theorem C1_AAAA_accepts_IPv4_literal:
  "parseIPv4 ''1.2.3.4'' = Some (net_IPv4 1 2 3 4)
   \<and> parseIPv6 ''1.2.3.4'' = None
   \<and> isValidTarget VALID_FQDN ''AAAA'' ''1.2.3.4''
   \<and> fst (LoadConfig VALID_FQDN open_ok
        (decode_to (config_of [local_record ''svc.local.'' ''AAAA'' 300 ''1.2.3.4'']))
        ''config.json'') \<noteq> None
   \<and> snd (LoadConfig VALID_FQDN open_ok
        (decode_to (config_of [local_record ''svc.local.'' ''AAAA'' 300 ''1.2.3.4'']))
        ''config.json'') = None"
  by code_simp

text \<open>
  Claim C2, as amended: \<^verbatim>\<open>ValidateNameserver\<close> sets the port to 53 when it is zero
  before any check, so on every path, the error paths included, the nameserver it leaves
  is the given one with the port defaulted and nothing else changed; when it returns an
  error and the port was not zero, the nameserver is unchanged.
\<close>

theorem C2_port_defaulted_on_every_path:
  "fst (ValidateNameserver ns) = ns\<lparr>Port := (if Port ns = 0 then 53 else Port ns)\<rparr>
   \<and> (snd (ValidateNameserver ns) \<noteq> None \<and> Port ns \<noteq> 0 \<longrightarrow> fst (ValidateNameserver ns) = ns)"
  by (simp add: fst_ValidateNameserver normalized_def)

theorem C2_port_defaulted_on_every_path_witness:
  "snd (ValidateNameserver \<lparr>IPv4 = [], IPv6 = [], Port = 8053\<rparr>) \<noteq> None
   \<and> fst (ValidateNameserver \<lparr>IPv4 = [], IPv6 = [], Port = 8053\<rparr>)
       = \<lparr>IPv4 = [], IPv6 = [], Port = 8053\<rparr>"
proof -
  have e: "snd (ValidateNameserver \<lparr>IPv4 = [], IPv6 = [], Port = 8053\<rparr>) \<noteq> None"
    by (simp add: ValidateNameserver_def)
  have p: "Port \<lparr>IPv4 = [], IPv6 = [], Port = 8053\<rparr> \<noteq> 0" by simp
  from C2_port_defaulted_on_every_path [of "\<lparr>IPv4 = [], IPv6 = [], Port = 8053\<rparr>"] e p
  show ?thesis by blast
qed

text \<open>The claim as stated fails: with both addresses empty and the port zero,
  \<^verbatim>\<open>ValidateNameserver\<close> returns an error and has already set the port to 53.\<close>

theorem C2_error_path_changes_port:
  "snd (ValidateNameserver \<lparr>IPv4 = [], IPv6 = [], Port = 0\<rparr>) = Some NameserverMissing
   \<and> fst (ValidateNameserver \<lparr>IPv4 = [], IPv6 = [], Port = 0\<rparr>)
       = \<lparr>IPv4 = [], IPv6 = [], Port = 53\<rparr>
   \<and> fst (ValidateNameserver \<lparr>IPv4 = [], IPv6 = [], Port = 0\<rparr>)
       \<noteq> \<lparr>IPv4 = [], IPv6 = [], Port = 0\<rparr>"
  by (simp add: ValidateNameserver_def)

text \<open>
  Claim C3, as amended: for type \<open>A\<close>, target validation succeeds exactly when
  \<^verbatim>\<open>net.ParseIP\<close> accepts the target and the address it returns has the IPv4-in-IPv6
  prefix (ten zero bytes, then \<open>ff ff\<close>). Every IPv4 literal in 4-octet form passes; an
  IPv6 literal passes if and only if its address has that prefix, so every IPv6 literal
  that is not IPv4-mapped is rejected.
\<close>

theorem C3_A_target_is_IPv4_or_mapped:
  "isValidTarget rx ''A'' t = (\<exists>ip. ParseIP t = Some ip \<and> take 12 ip = v4InV6Prefix)
   \<and> (parseIPv4 t \<noteq> None \<longrightarrow> isValidTarget rx ''A'' t)
   \<and> (parseIPv6 t = Some ip6 \<longrightarrow> isValidTarget rx ''A'' t = (take 12 ip6 = v4InV6Prefix))"
proof -
  have a: "isValidTarget rx ''A'' t = (\<exists>ip. ParseIP t = Some ip \<and> take 12 ip = v4InV6Prefix)"
    by (rule isValidTarget_A)
  have b: "isValidTarget rx ''A'' t" if "parseIPv4 t \<noteq> None"
  proof -
    from that obtain ip where ip: "parseIPv4 t = Some ip" by auto
    with parseIPv4_ParseIP [of t] have "ParseIP t = Some ip" by simp
    with parseIPv4_Some [OF ip] show ?thesis by (simp add: a)
  qed
  have c: "isValidTarget rx ''A'' t = (take 12 ip6 = v4InV6Prefix)" if "parseIPv6 t = Some ip6"
  proof -
    from that parseIPv6_ParseIP [of t] have "ParseIP t = Some ip6" by simp
    then show ?thesis by (simp add: a)
  qed
  from a b c show ?thesis by blast
qed

theorem C3_A_target_is_IPv4_or_mapped_witness:
  "isValidTarget VALID_FQDN ''A'' ''10.0.0.5'' \<and> \<not> isValidTarget VALID_FQDN ''A'' ''2001:db8::1''"
proof -
  have 4: "parseIPv4 ''10.0.0.5'' \<noteq> None" by code_simp
  have 6: "parseIPv6 ''2001:db8::1'' = Some [0x20, 1, 0xd, 0xb8, 0, 0, 0, 0, 0, 0, 0, 0, 0, 0, 0, 1]"
    by code_simp
  have n: "take 12 [0x20, 1, 0xd, 0xb8, 0, 0, 0, 0, 0, 0, 0, 0, 0, 0, 0, 1 :: byte] \<noteq> v4InV6Prefix"
    by (simp add: v4InV6Prefix_def)
  from C3_A_target_is_IPv4_or_mapped [of VALID_FQDN "''10.0.0.5''"] 4
  have "isValidTarget VALID_FQDN ''A'' ''10.0.0.5''" by blast
  moreover from C3_A_target_is_IPv4_or_mapped [of VALID_FQDN "''2001:db8::1''"
      "[0x20, 1, 0xd, 0xb8, 0, 0, 0, 0, 0, 0, 0, 0, 0, 0, 0, 1]"] 6 n
  have "\<not> isValidTarget VALID_FQDN ''A'' ''2001:db8::1''" by blast
  ultimately show ?thesis by blast
qed

text \<open>The claim as stated fails: \<^verbatim>\<open>::ffff:1.2.3.4\<close> is not an IPv4 literal in 4-octet
  form, it is a syntactically valid IPv6 literal, and it passes as an \<open>A\<close> target.\<close>

theorem C3_mapped_IPv6_literal_accepted:
  "parseIPv4 ''::ffff:1.2.3.4'' = None
   \<and> parseIPv6 ''::ffff:1.2.3.4'' = Some (net_IPv4 1 2 3 4)
   \<and> isValidTarget VALID_FQDN ''A'' ''::ffff:1.2.3.4''"
  by code_simp




text \<open>
  Claim C5: for type \<open>CNAME\<close>, target validation succeeds if and only if the target
  matches the FQDN grammar and no two consecutive characters (runes) of it are identical;
  in particular \<^verbatim>\<open>aa.example.com.\<close> fails, whatever the grammar accepts.
\<close>

theorem C5_CNAME_target:
  "isValidTarget rx ''CNAME'' t =
     (rx t = Some True
      \<and> \<not> (\<exists>j. j + 1 < length (runes_of t) \<and> runes_of t ! (j + 1) = runes_of t ! j))
   \<and> \<not> isValidTarget rx ''CNAME'' ''aa.example.com.''"
proof -
  have r: "runes_of ''aa.example.com.'' ! (0 + 1) = runes_of ''aa.example.com.'' ! 0"
    by code_simp
  have l: "0 + 1 < length (runes_of ''aa.example.com.'')" by code_simp
  from r l have "\<exists>j. j + 1 < length (runes_of ''aa.example.com.'')
      \<and> runes_of ''aa.example.com.'' ! (j + 1) = runes_of ''aa.example.com.'' ! j" by blast
  then show ?thesis by (simp add: isValidTarget_CNAME)
qed

theorem C5_CNAME_target_witness:
  "isValidTarget VALID_FQDN ''CNAME'' ''svc.local.''
   \<and> VALID_FQDN ''aa.example.com.'' = Some True
   \<and> \<not> isValidTarget VALID_FQDN ''CNAME'' ''aa.example.com.''"
proof -
  have a: "VALID_FQDN ''svc.local.'' = Some True" by code_simp
  have "runes_loop (runes_of ''svc.local.'') 0" by code_simp
  then have b: "\<not> (\<exists>j. j + 1 < length (runes_of ''svc.local.'')
      \<and> runes_of ''svc.local.'' ! (j + 1) = runes_of ''svc.local.'' ! j)"
    using runes_loop_iff [of 0 "runes_of ''svc.local.''"] by simp
  have c: "VALID_FQDN ''aa.example.com.'' = Some True" by code_simp
  from C5_CNAME_target [of VALID_FQDN "''svc.local.''"] a b c show ?thesis by blast
qed

text \<open>
  Claim C6: when every local record of the decoded configuration is well-formed and both
  nameservers are valid, \<^verbatim>\<open>LoadConfig\<close> returns the configuration and no error, with
  each port set to 53 and the timeout set to 5000 where they were zero, and kept where
  they were not.
\<close>

theorem C6_valid_configuration_loads:
  assumes "os_Open p = Inr f" and "Decode f = Inr c"
    and "\<forall>v \<in> set (LocalRecords c). well_formed rx v"
    and "nameserver_ok (Primary (UpstreamNameservers c))"
    and "nameserver_ok (Secondary (UpstreamNameservers c))"
  shows "LoadConfig rx os_Open Decode p =
     (Some (c\<lparr>UpstreamNameservers :=
         \<lparr>Primary = (Primary (UpstreamNameservers c))
            \<lparr>Port := (if Port (Primary (UpstreamNameservers c)) = 0 then 53
                       else Port (Primary (UpstreamNameservers c)))\<rparr>,
          Secondary = (Secondary (UpstreamNameservers c))
            \<lparr>Port := (if Port (Secondary (UpstreamNameservers c)) = 0 then 53
                       else Port (Secondary (UpstreamNameservers c)))\<rparr>,
          TimeoutMs = (if TimeoutMs (UpstreamNameservers c) = 0 then 5000
                       else TimeoutMs (UpstreamNameservers c))\<rparr>\<rparr>), None)"
proof -
  have "list_all (record_ok rx) (LocalRecords c)"
    using assms(3) by (simp add: list_all_iff well_formed_record_ok)
  from LoadConfig_ok [where os_Open = os_Open and Decode = Decode and p = p and f = f
      and c = c, OF assms(1,2) this assms(4,5)]
  show ?thesis by (simp add: normalized_config_def normalized_def)
qed

text \<open>The example scenario: the record
  \<^verbatim>\<open>{Name:"svc.local.",Type:"A",TTL:300,Target:"10.0.0.5"}\<close> with the upstream section
  \<^verbatim>\<open>{Primary:{IPv4:"1.1.1.1"},Secondary:{IPv4:"8.8.8.8"}}\<close>.\<close>

theorem C6_valid_configuration_loads_witness:
  "LoadConfig VALID_FQDN open_ok
     (decode_to (config_of [local_record ''svc.local.'' ''A'' 300 ''10.0.0.5''])) ''config.json'' =
     (Some \<lparr>LocalRecords = [local_record ''svc.local.'' ''A'' 300 ''10.0.0.5''],
            UpstreamNameservers =
              \<lparr>Primary = \<lparr>IPv4 = ''1.1.1.1'', IPv6 = [], Port = 53\<rparr>,
               Secondary = \<lparr>IPv4 = ''8.8.8.8'', IPv6 = [], Port = 53\<rparr>,
               TimeoutMs = 5000\<rparr>\<rparr>, None)"
proof -
  let ?c = "config_of [local_record ''svc.local.'' ''A'' 300 ''10.0.0.5'']"
  have 1: "open_ok ''config.json'' = Inr ()" by (simp add: open_ok_def)
  have 2: "decode_to ?c () = Inr ?c" by (simp add: decode_to_def)
  have n: "VALID_FQDN ''svc.local.'' = Some True" by code_simp
  have t: "parseIPv4 ''10.0.0.5'' \<noteq> None" by code_simp
  have 3: "\<forall>v \<in> set (LocalRecords ?c). well_formed VALID_FQDN v"
    using n t by (simp add: config_of_def local_record_def well_formed_def)
  have 4: "nameserver_ok (Primary (UpstreamNameservers ?c))" by code_simp
  have 5: "nameserver_ok (Secondary (UpstreamNameservers ?c))" by code_simp
  from C6_valid_configuration_loads [where os_Open = open_ok and Decode = "decode_to ?c"
      and p = "''config.json''" and f = "()" and c = ?c and rx = VALID_FQDN, OF 1 2 3 4 5]
  show ?thesis by (simp add: config_of_def example_upstream_def)
qed

text \<open>
  Claim C7: on an endpoint that \<^verbatim>\<open>ValidateNameserver\<close> has already accepted, a second
  call returns \<^verbatim>\<open>nil\<close> again and leaves the endpoint, whose port is not zero, as it is.
\<close>

theorem C7_ValidateNameserver_idempotent:
  assumes "ValidateNameserver ns = (ns', None)"
  shows "ValidateNameserver ns' = (ns', None) \<and> Port ns' \<noteq> 0"
proof -
  from assms have 1: "ns' = normalized ns" and 2: "nameserver_ok ns"
    using fst_ValidateNameserver [of ns] snd_ValidateNameserver_None [of ns] by simp_all
  have "fst (ValidateNameserver ns') = ns'"
    by (simp add: 1 fst_ValidateNameserver normalized_idem)
  moreover have "snd (ValidateNameserver ns') = None"
    by (simp add: 1 2 snd_ValidateNameserver_None nameserver_ok_normalized)
  moreover have "Port ns' \<noteq> 0" by (simp add: 1 normalized_def)
  ultimately show ?thesis by (simp add: prod_eq_iff)
qed

theorem C7_ValidateNameserver_idempotent_witness:
  "ValidateNameserver \<lparr>IPv4 = ''1.1.1.1'', IPv6 = ''2606:4700:4700::1111'', Port = 53\<rparr>
     = (\<lparr>IPv4 = ''1.1.1.1'', IPv6 = ''2606:4700:4700::1111'', Port = 53\<rparr>, None)"
proof -
  have "ValidateNameserver \<lparr>IPv4 = ''1.1.1.1'', IPv6 = ''2606:4700:4700::1111'', Port = 0\<rparr>
     = (\<lparr>IPv4 = ''1.1.1.1'', IPv6 = ''2606:4700:4700::1111'', Port = 53\<rparr>, None)"
    by code_simp
  from C7_ValidateNameserver_idempotent [OF this] show ?thesis by simp
qed

text \<open>
  Claim C8, as amended: when the decoded configuration contains a local record with TTL
  zero at index \<open>k\<close>, \<^verbatim>\<open>LoadConfig\<close> returns no configuration and one record
  validation error, whatever the other fields of that record are. The error is that of
  the first check failed by the first record that fails a check; that record is at an
  index \<open>j \<le> k\<close>, and when every record before \<open>k\<close> passes its checks it is the
  record at \<open>k\<close> itself (with a name, type or TTL error).
\<close>

theorem C8_zero_TTL_fails:
  assumes "os_Open p = Inr f" and "Decode f = Inr c"
    and "k < length (LocalRecords c)" and "TTL (LocalRecords c ! k) = 0"
  shows "\<exists>e j. LoadConfig rx os_Open Decode p = (None, Some e) \<and> record_index e = Some j \<and> j \<le> k
     \<and> \<not> record_ok rx (LocalRecords c ! j) \<and> (\<forall>i<j. record_ok rx (LocalRecords c ! i))
     \<and> e = record_error rx j (LocalRecords c ! j)
     \<and> ((\<forall>i<k. record_ok rx (LocalRecords c ! i))
          \<longrightarrow> j = k \<and> e \<in> {NameInvalid k, TypeInvalid k, TTLInvalid k})"
proof -
  have bad: "\<not> record_ok rx (LocalRecords c ! k)"
    using assms(4) by (simp add: record_ok_def)
  from LoadConfig_bad_record [where os_Open = os_Open and Decode = Decode and p = p and f = f
      and c = c, OF assms(1,2,3) bad]
  obtain j where j: "j \<le> k"
    "LoadConfig rx os_Open Decode p = (None, Some (record_error rx j (LocalRecords c ! j)))"
    "\<not> record_ok rx (LocalRecords c ! j)" "\<forall>i<j. record_ok rx (LocalRecords c ! i)" by blast
  have "(\<forall>i<k. record_ok rx (LocalRecords c ! i)) \<longrightarrow> j = k"
    using j(1,3) le_neq_implies_less by blast
  moreover have "record_error rx k (LocalRecords c ! k) \<in> {NameInvalid k, TypeInvalid k, TTLInvalid k}"
    using assms(4) by (simp add: record_error_def)
  ultimately show ?thesis using j record_index_record_error by blast
qed

theorem C8_zero_TTL_fails_witness:
  "fst (LoadConfig VALID_FQDN open_ok
      (decode_to (config_of [local_record ''svc.local.'' ''A'' 300 ''10.0.0.5'',
                             local_record ''db.local.'' ''A'' 0 ''10.0.0.6'']))
      ''config.json'') = None
   \<and> snd (LoadConfig VALID_FQDN open_ok
      (decode_to (config_of [local_record ''svc.local.'' ''A'' 300 ''10.0.0.5'',
                             local_record ''db.local.'' ''A'' 0 ''10.0.0.6'']))
      ''config.json'') \<in> {Some (NameInvalid 1), Some (TypeInvalid 1), Some (TTLInvalid 1)}"
proof -
  let ?c = "config_of [local_record ''svc.local.'' ''A'' 300 ''10.0.0.5'',
                       local_record ''db.local.'' ''A'' 0 ''10.0.0.6'']"
  have 1: "open_ok ''config.json'' = Inr ()" by (simp add: open_ok_def)
  have 2: "decode_to ?c () = Inr ?c" by (simp add: decode_to_def)
  have 3: "1 < length (LocalRecords ?c)" by (simp add: config_of_def)
  have 4: "TTL (LocalRecords ?c ! 1) = 0" by (simp add: config_of_def local_record_def)
  have "record_ok VALID_FQDN (LocalRecords ?c ! 0)" by code_simp
  then have 5: "\<forall>i<1. record_ok VALID_FQDN (LocalRecords ?c ! i)" by simp
  from C8_zero_TTL_fails [where os_Open = open_ok and Decode = "decode_to ?c"
      and p = "''config.json''" and f = "()" and c = ?c and rx = VALID_FQDN and k = 1, OF 1 2 3 4] 5
  show ?thesis by auto
qed

text \<open>The claim as stated fails: here the record at index 1 has TTL zero, and the one
  error \<^verbatim>\<open>LoadConfig\<close> returns is the type error of the record at index 0.\<close>

theorem C8_error_names_earlier_record:
  "TTL (LocalRecords (config_of [local_record ''svc.local.'' ''MX'' 300 ''10.0.0.5'',
                                 local_record ''db.local.'' ''A'' 0 ''10.0.0.6'']) ! 1) = 0
   \<and> LoadConfig VALID_FQDN open_ok
        (decode_to (config_of [local_record ''svc.local.'' ''MX'' 300 ''10.0.0.5'',
                               local_record ''db.local.'' ''A'' 0 ''10.0.0.6'']))
        ''config.json'' = (None, Some (TypeInvalid 0))
   \<and> record_index (TypeInvalid 0) \<noteq> Some 1"
  by code_simp

text \<open>
  Claim C9, as amended: when the decoded configuration contains a local record at index
  \<open>k\<close> whose type is not exactly \<open>A\<close>, \<open>AAAA\<close> or \<open>CNAME\<close>, \<^verbatim>\<open>LoadConfig\<close>
  returns no configuration and one record validation error, whatever the target is. The
  error is that of the first check failed by the first record that fails a check; that
  record is at an index \<open>j \<le> k\<close>, and when every record before \<open>k\<close> passes its
  checks it is the record at \<open>k\<close> itself (with a name or type error). Target validation
  itself fails for every target under such a type.
\<close>

theorem C9_unknown_type_fails:
  assumes "os_Open p = Inr f" and "Decode f = Inr c"
    and "k < length (LocalRecords c)"
    and "Type (LocalRecords c ! k) \<notin> {''A'', ''AAAA'', ''CNAME''}"
  shows "(\<exists>e j. LoadConfig rx os_Open Decode p = (None, Some e) \<and> record_index e = Some j \<and> j \<le> k
     \<and> \<not> record_ok rx (LocalRecords c ! j) \<and> (\<forall>i<j. record_ok rx (LocalRecords c ! i))
     \<and> e = record_error rx j (LocalRecords c ! j)
     \<and> ((\<forall>i<k. record_ok rx (LocalRecords c ! i))
          \<longrightarrow> j = k \<and> e \<in> {NameInvalid k, TypeInvalid k}))
     \<and> \<not> isValidTarget rx (Type (LocalRecords c ! k)) target"
proof -
  have bad: "\<not> record_ok rx (LocalRecords c ! k)"
    using assms(4) by (simp add: record_ok_def isValidType_iff)
  from LoadConfig_bad_record [where os_Open = os_Open and Decode = Decode and p = p and f = f
      and c = c, OF assms(1,2,3) bad]
  obtain j where j: "j \<le> k"
    "LoadConfig rx os_Open Decode p = (None, Some (record_error rx j (LocalRecords c ! j)))"
    "\<not> record_ok rx (LocalRecords c ! j)" "\<forall>i<j. record_ok rx (LocalRecords c ! i)" by blast
  have "(\<forall>i<k. record_ok rx (LocalRecords c ! i)) \<longrightarrow> j = k"
    using j(1,3) le_neq_implies_less by blast
  moreover have "record_error rx k (LocalRecords c ! k) \<in> {NameInvalid k, TypeInvalid k}"
    using assms(4) by (simp add: record_error_def isValidType_iff)
  ultimately have "\<exists>e j. LoadConfig rx os_Open Decode p = (None, Some e)
     \<and> record_index e = Some j \<and> j \<le> k
     \<and> \<not> record_ok rx (LocalRecords c ! j) \<and> (\<forall>i<j. record_ok rx (LocalRecords c ! i))
     \<and> e = record_error rx j (LocalRecords c ! j)
     \<and> ((\<forall>i<k. record_ok rx (LocalRecords c ! i))
          \<longrightarrow> j = k \<and> e \<in> {NameInvalid k, TypeInvalid k})"
    using j record_index_record_error by blast
  moreover have "\<not> isValidTarget rx (Type (LocalRecords c ! k)) target"
    using assms(4) by (simp add: isValidTarget_def)
  ultimately show ?thesis by blast
qed

theorem C9_unknown_type_fails_witness:
  "fst (LoadConfig VALID_FQDN open_ok
      (decode_to (config_of [local_record ''svc.local.'' ''A'' 300 ''10.0.0.5'',
                             local_record ''db.local.'' ''aaaa'' 300 ''2001:db8::1'']))
      ''config.json'') = None
   \<and> snd (LoadConfig VALID_FQDN open_ok
      (decode_to (config_of [local_record ''svc.local.'' ''A'' 300 ''10.0.0.5'',
                             local_record ''db.local.'' ''aaaa'' 300 ''2001:db8::1'']))
      ''config.json'') \<in> {Some (NameInvalid 1), Some (TypeInvalid 1)}
   \<and> \<not> isValidTarget VALID_FQDN ''aaaa'' ''2001:db8::1''"
proof -
  let ?c = "config_of [local_record ''svc.local.'' ''A'' 300 ''10.0.0.5'',
                       local_record ''db.local.'' ''aaaa'' 300 ''2001:db8::1'']"
  have 1: "open_ok ''config.json'' = Inr ()" by (simp add: open_ok_def)
  have 2: "decode_to ?c () = Inr ?c" by (simp add: decode_to_def)
  have 3: "1 < length (LocalRecords ?c)" by (simp add: config_of_def)
  have 4: "Type (LocalRecords ?c ! 1) \<notin> {''A'', ''AAAA'', ''CNAME''}"
    by (simp add: config_of_def local_record_def)
  have t: "Type (LocalRecords ?c ! 1) = ''aaaa''" by (simp add: config_of_def local_record_def)
  have "record_ok VALID_FQDN (LocalRecords ?c ! 0)" by code_simp
  then have 5: "\<forall>i<1. record_ok VALID_FQDN (LocalRecords ?c ! i)" by simp
  from C9_unknown_type_fails [where os_Open = open_ok and Decode = "decode_to ?c"
      and p = "''config.json''" and f = "()" and c = ?c and rx = VALID_FQDN and k = 1
      and target = "''2001:db8::1''", OF 1 2 3 4] 5 t
  show ?thesis by auto
qed

text \<open>The claim as stated fails: here the record at index 1 has the type \<open>MX\<close>, and the
  one error \<^verbatim>\<open>LoadConfig\<close> returns is the TTL error of the record at index 0.\<close>

theorem C9_error_names_earlier_record:
  "Type (LocalRecords (config_of [local_record ''svc.local.'' ''A'' 0 ''10.0.0.5'',
                                  local_record ''db.local.'' ''MX'' 300 ''10.0.0.6'']) ! 1) = ''MX''
   \<and> LoadConfig VALID_FQDN open_ok
        (decode_to (config_of [local_record ''svc.local.'' ''A'' 0 ''10.0.0.5'',
                               local_record ''db.local.'' ''MX'' 300 ''10.0.0.6'']))
        ''config.json'' = (None, Some (TTLInvalid 0))
   \<and> record_index (TTLInvalid 0) \<noteq> Some 1"
  by code_simp

text \<open>
  Claim C10: when \<^verbatim>\<open>LoadConfig\<close> succeeds on a decoded configuration, the local records
  it returns are the decoded ones, and the returned configuration is the decoded one with
  only the two ports (zero to 53) and the timeout (zero to 5000) changed.
\<close>

theorem C10_only_ports_and_timeout_change:
  assumes "os_Open p = Inr f" and "Decode f = Inr c"
    and "LoadConfig rx os_Open Decode p = (Some c', err)"
  shows "LocalRecords c' = LocalRecords c
    \<and> c' = c\<lparr>UpstreamNameservers :=
         \<lparr>Primary = (Primary (UpstreamNameservers c))
            \<lparr>Port := (if Port (Primary (UpstreamNameservers c)) = 0 then 53
                       else Port (Primary (UpstreamNameservers c)))\<rparr>,
          Secondary = (Secondary (UpstreamNameservers c))
            \<lparr>Port := (if Port (Secondary (UpstreamNameservers c)) = 0 then 53
                       else Port (Secondary (UpstreamNameservers c)))\<rparr>,
          TimeoutMs = (if TimeoutMs (UpstreamNameservers c) = 0 then 5000
                       else TimeoutMs (UpstreamNameservers c))\<rparr>\<rparr>"
  using LoadConfig_Some [where os_Open = os_Open and Decode = Decode and p = p and f = f
      and c = c, OF assms]
  by (simp add: normalized_config_def normalized_def)

theorem C10_only_ports_and_timeout_change_witness:
  "LocalRecords \<lparr>LocalRecords = [local_record ''www.local.'' ''CNAME'' 60 ''svc.local.'',
                                 local_record ''www.local.'' ''CNAME'' 60 ''svc.local.''],
       UpstreamNameservers =
         \<lparr>Primary = \<lparr>IPv4 = ''1.1.1.1'', IPv6 = [], Port = 53\<rparr>,
          Secondary = \<lparr>IPv4 = ''8.8.8.8'', IPv6 = [], Port = 53\<rparr>,
          TimeoutMs = 5000\<rparr>\<rparr>
     = LocalRecords (config_of [local_record ''www.local.'' ''CNAME'' 60 ''svc.local.'',
                                local_record ''www.local.'' ''CNAME'' 60 ''svc.local.''])"
proof -
  let ?c = "config_of [local_record ''www.local.'' ''CNAME'' 60 ''svc.local.'',
                       local_record ''www.local.'' ''CNAME'' 60 ''svc.local.'']"
  have 1: "open_ok ''config.json'' = Inr ()" by (simp add: open_ok_def)
  have 2: "decode_to ?c () = Inr ?c" by (simp add: decode_to_def)
  have 3: "LoadConfig VALID_FQDN open_ok (decode_to ?c) ''config.json'' =
     (Some \<lparr>LocalRecords = [local_record ''www.local.'' ''CNAME'' 60 ''svc.local.'',
                            local_record ''www.local.'' ''CNAME'' 60 ''svc.local.''],
            UpstreamNameservers =
              \<lparr>Primary = \<lparr>IPv4 = ''1.1.1.1'', IPv6 = [], Port = 53\<rparr>,
               Secondary = \<lparr>IPv4 = ''8.8.8.8'', IPv6 = [], Port = 53\<rparr>,
               TimeoutMs = 5000\<rparr>\<rparr>, None)"
    by code_simp
  from C10_only_ports_and_timeout_change [where os_Open = open_ok and Decode = "decode_to ?c"
      and p = "''config.json''" and f = "()" and c = ?c and rx = VALID_FQDN, OF 1 2 3]
  show ?thesis by blast
qed

end
